theory Spec2Isabelle
  imports Main
begin

section \<open>Strings\<close>

text \<open>
  A Python \<^verbatim>\<open>str\<close> is a sequence of Unicode code points, and \<^verbatim>\<open>len\<close> counts code
  points. The truncation marker of \<^verbatim>\<open>build_prompt\<close> is U+2026, which is no 8-bit
  character, so a string is modelled as a list of code points. ASCII literals of the
  source are written with \<open>u\<close>.
\<close>

type_synonym ustr = "nat list"

definition u :: "string \<Rightarrow> ustr" where
  "u s = map of_char s"

definition ascii_alnum :: "nat \<Rightarrow> bool" where
  "ascii_alnum c = ((48 \<le> c \<and> c \<le> 57) \<or> (65 \<le> c \<and> c \<le> 90) \<or> (97 \<le> c \<and> c \<le> 122))"

text \<open>
  The class \<^verbatim>\<open>\w\<close> of a \<^verbatim>\<open>str\<close> pattern without \<^verbatim>\<open>re.ASCII\<close>: the ASCII letters and
  digits, the underscore, and every code point the Unicode database calls alphanumeric.
  The database is no part of the repository; its alphanumeric predicate on the code
  points from 128 on is the parameter \<open>uni\<close>.
\<close>

definition re_word :: "(nat \<Rightarrow> bool) \<Rightarrow> nat \<Rightarrow> bool" where
  "re_word uni c = (if c < 128 then ascii_alnum c \<or> c = 95 else uni c)"

text \<open>The class \<^verbatim>\<open>[\w-]\<close>.\<close>

definition name_char :: "(nat \<Rightarrow> bool) \<Rightarrow> nat \<Rightarrow> bool" where
  "name_char uni c = (re_word uni c \<or> c = 45)"

text \<open>
  \<^verbatim>\<open>str.isspace\<close> of one code point (the white space \<^verbatim>\<open>str.strip()\<close> removes):
  TAB to CR, FS to US, the space, NEL, NBSP, U+1680, U+2000 to U+200A, U+2028, U+2029,
  U+202F, U+205F and U+3000.
\<close>

definition py_isspace :: "nat \<Rightarrow> bool" where
  "py_isspace c =
     ((9 \<le> c \<and> c \<le> 13) \<or> (28 \<le> c \<and> c \<le> 32) \<or> c = 133 \<or> c = 160 \<or> c = 5760 \<or>
      (8192 \<le> c \<and> c \<le> 8202) \<or> c = 8232 \<or> c = 8233 \<or> c = 8239 \<or> c = 8287 \<or> c = 12288)"

text \<open>A fragment of the Unicode table for evaluating examples: U+00E9 is a letter.\<close>

definition uni_sample :: "nat \<Rightarrow> bool" where
  "uni_sample c = (c = 233)"

section \<open>The URL parser\<close>

text \<open>
  The exceptions. \<open>LibraryError\<close> is an exception class of the platform client or of the
  generative-model client, all derived from \<^verbatim>\<open>Exception\<close>; \<open>Unsupported\<close> stands for a
  construct of a format string that the model of \<^verbatim>\<open>str.format\<close> does not interpret.
\<close>

datatype error =
    ValueError ustr
  | KeyError ustr
  | IndexError
  | Unsupported
  | OSError ustr
  | LibraryError ustr
  | KeyboardInterrupt

text \<open>Matching a literal at the head of the subject; the result is what follows it.\<close>

fun match_literal :: "ustr \<Rightarrow> ustr \<Rightarrow> ustr option" where
  "match_literal [] s = Some s"
| "match_literal (p # ps) [] = None"
| "match_literal (p # ps) (c # cs) = (if p = c then match_literal ps cs else None)"

text \<open>
  The pattern \<^verbatim>\<open>reddit\.com/user/([\w-]+)/?\<close> tried at the head of \<open>s\<close>; the result is
  group 1. The group is greedy and what follows it, \<^verbatim>\<open>/?\<close>, matches the empty string
  too, so the matcher never gives a character of the longest run back: group 1 is the
  longest run of \<^verbatim>\<open>[\w-]\<close>, and the attempt fails when that run is empty.
\<close>

definition match_at :: "(nat \<Rightarrow> bool) \<Rightarrow> ustr \<Rightarrow> ustr option" where
  "match_at uni s =
     (case match_literal (u ''reddit.com/user/'') s of
        None \<Rightarrow> None
      | Some r \<Rightarrow>
          (let g = takeWhile (name_char uni) r in if g = [] then None else Some g))"

text \<open>\<^verbatim>\<open>re.search\<close>: the start positions from left to right, the first match wins.\<close>

fun re_search :: "(nat \<Rightarrow> bool) \<Rightarrow> ustr \<Rightarrow> ustr option" where
  "re_search uni [] = match_at uni []"
| "re_search uni (c # cs) =
     (case match_at uni (c # cs) of Some g \<Rightarrow> Some g | None \<Rightarrow> re_search uni cs)"

definition extract_username :: "(nat \<Rightarrow> bool) \<Rightarrow> ustr \<Rightarrow> error + ustr" where
  "extract_username uni url =
     (case re_search uni url of
        None \<Rightarrow> Inl (ValueError (u ''Invalid Reddit profile URL: '' @ url))
      | Some g \<Rightarrow> Inr g)"

text \<open>
  The shape the specification names: \<^verbatim>\<open>https://reddit.com/user/<name>/\<close> with a
  non-empty name of word characters and hyphens.
\<close>

definition profile_form :: "(nat \<Rightarrow> bool) \<Rightarrow> ustr \<Rightarrow> bool" where
  "profile_form uni url =
     (case match_literal (u ''https://reddit.com/user/'') url of
        None \<Rightarrow> False
      | Some r \<Rightarrow> r \<noteq> [] \<and> last r = 47 \<and> butlast r \<noteq> [] \<and> list_all (name_char uni) (butlast r))"

section \<open>The post-processor\<close>

text \<open>The class \<^verbatim>\<open>[A-Za-z &]\<close>.\<close>

definition heading_char :: "nat \<Rightarrow> bool" where
  "heading_char c = ((65 \<le> c \<and> c \<le> 90) \<or> (97 \<le> c \<and> c \<le> 122) \<or> c = 32 \<or> c = 38)"

text \<open>
  The pattern \<^verbatim>\<open>([A-Za-z &]+):\<close> tried at the head of \<open>s\<close>; the result is group 1 and
  the text after the match. The colon is outside the class, so no shorter run than the
  longest one can be followed by it: the attempt succeeds exactly when the longest run is
  non-empty and a colon follows.
\<close>

definition heading_match :: "ustr \<Rightarrow> (ustr \<times> ustr) option" where
  "heading_match s =
     (let g = takeWhile heading_char s in
      case dropWhile heading_char s of
        [] \<Rightarrow> None
      | c # rest \<Rightarrow> if c = 58 \<and> g \<noteq> [] then Some (g, rest) else None)"

text \<open>
  \<^verbatim>\<open>re.sub\<close> with \<^verbatim>\<open>re.MULTILINE\<close>: the scan goes from left to right; \<open>bol\<close> says that
  the position is the start of the string or follows a line feed, where \<^verbatim>\<open>^\<close> matches.
  A match is replaced by \<^verbatim>\<open>**\<close>, group 1 and \<^verbatim>\<open>:**\<close>, and the scan goes on after the
  colon; elsewhere the character is copied.
\<close>

function re_sub :: "bool \<Rightarrow> ustr \<Rightarrow> ustr" where
  "re_sub bol [] = []"
| "re_sub bol (c # cs) =
     (case (if bol then heading_match (c # cs) else None) of
        Some (g, rest) \<Rightarrow> u ''**'' @ g @ u '':**'' @ re_sub False rest
      | None \<Rightarrow> c # re_sub (c = 10) cs)"
  by pat_completeness auto
termination
proof (relation "measure (\<lambda>(bol, s). length s)", goal_cases)
  case 1
  show ?case by simp
next
  case (2 bol c cs)
  show ?case by simp
next
  case (3 bol c cs p g rest)
  then have "heading_match (c # cs) = Some (g, rest)"
    by (simp split: if_splits)
  then have "dropWhile heading_char (c # cs) = 58 # rest"
    by (simp add: heading_match_def Let_def split: list.splits if_splits)
  then have "Suc (length rest) = length (dropWhile heading_char (c # cs))"
    by simp
  also have "\<dots> \<le> length (c # cs)"
    by (rule length_dropWhile_le)
  finally show ?case by simp
qed

definition post_process_persona :: "ustr \<Rightarrow> ustr" where
  "post_process_persona text = re_sub True text"


text \<open>\<^verbatim>\<open>text.split("\n")\<close>, \<^verbatim>\<open>sep.join(lines)\<close> and \<^verbatim>\<open>"\n".join(lines)\<close>.\<close>

fun split_nl :: "ustr \<Rightarrow> ustr list" where
  "split_nl [] = [[]]"
| "split_nl (c # cs) =
     (if c = 10 then [] # split_nl cs
      else (case split_nl cs of [] \<Rightarrow> [[c]] | l # ls \<Rightarrow> (c # l) # ls))"

fun str_join :: "ustr \<Rightarrow> ustr list \<Rightarrow> ustr" where
  "str_join sep [] = []"
| "str_join sep [l] = l"
| "str_join sep (l # m # ls) = l @ sep @ str_join sep (m # ls)"

definition join_nl :: "ustr list \<Rightarrow> ustr" where
  "join_nl ls = str_join [10] ls"

text \<open>What the substitution does to one line.\<close>

definition rewrite_line :: "ustr \<Rightarrow> ustr" where
  "rewrite_line l =
     (case heading_match l of
        None \<Rightarrow> l
      | Some (g, rest) \<Rightarrow> u ''**'' @ g @ u '':**'' @ rest)"

section \<open>The prompt builder\<close>

text \<open>
  A post or comment is a dictionary from field names to strings. \<^verbatim>\<open>item.get(k)\<close> is
  falsy for a missing key and for an empty string.
\<close>

type_synonym item = "string \<rightharpoonup> ustr"

definition get_or_empty :: "item \<Rightarrow> string \<Rightarrow> ustr" where
  "get_or_empty item k = (case item k of None \<Rightarrow> [] | Some v \<Rightarrow> v)"

text \<open>\<^verbatim>\<open>" ".join(item.get(k, "") for k in key_names if item.get(k))\<close>\<close>

definition snippet :: "item \<Rightarrow> string list \<Rightarrow> ustr" where
  "snippet item key_names =
     str_join [32] (map (get_or_empty item) (filter (\<lambda>k. get_or_empty item k \<noteq> []) key_names))"

text \<open>\<^verbatim>\<open>s.replace("\n", " ")\<close> and \<^verbatim>\<open>s.strip()\<close>.\<close>

definition replace_nl :: "ustr \<Rightarrow> ustr" where
  "replace_nl s = map (\<lambda>c. if c = 10 then 32 else c) s"

definition strip :: "ustr \<Rightarrow> ustr" where
  "strip s = rev (dropWhile py_isspace (rev (dropWhile py_isspace s)))"

definition clean_text :: "item \<Rightarrow> string list \<Rightarrow> ustr" where
  "clean_text item key_names = strip (replace_nl (snippet item key_names))"

text \<open>
  \<^verbatim>\<open>s.rsplit(" ", 1)[0]\<close>: what precedes the last space of \<open>s\<close>, and all of \<open>s\<close> when it
  has no space.
\<close>

definition rsplit1_head :: "ustr \<Rightarrow> ustr" where
  "rsplit1_head s =
     (if 32 \<in> set s then rev (tl (dropWhile (\<lambda>c. c \<noteq> 32) (rev s))) else s)"

text \<open>The truncation of the loop body; 8230 is the marker U+2026.\<close>

definition truncate_text :: "ustr \<Rightarrow> ustr" where
  "truncate_text clean =
     (if length clean > 300 then rsplit1_head (take 300 clean) @ [8230] else clean)"

text \<open>One turn of the loop of \<^verbatim>\<open>section\<close>: the line appended for an item.\<close>

definition item_line :: "string list \<Rightarrow> item \<Rightarrow> ustr" where
  "item_line key_names item = u ''- '' @ truncate_text (clean_text item key_names)"

definition section_of :: "item list \<Rightarrow> string list \<Rightarrow> ustr" where
  "section_of items key_names = join_nl (map (item_line key_names) items)"

definition PROMPT_TEMPLATE :: ustr where
  "PROMPT_TEMPLATE = u (''\<newline>'' @
''Analyze the following Reddit user's posts and comments to generate a detailed user persona.\<newline>'' @
''For each trait or insight, cite the source post or comment (full text or snippet) in the format: [source: ...].\<newline>'' @
''\<newline>'' @
''User: {username}\<newline>'' @
''\<newline>'' @
''Posts:\<newline>'' @
''{posts_section}\<newline>'' @
''\<newline>'' @
''Comments:\<newline>'' @
''{comments_section}\<newline>'' @
''\<newline>'' @
''Output format example:\<newline>'' @
''User Persona: {username}\<newline>'' @
''\<newline>'' @
''**Personality:** ... [source: ...]\<newline>'' @
''**Interests:** ... [source: ...]\<newline>'' @
''**Tone:** ... [source: ...]\<newline>'' @
''**Values & Communication:** ... [source: ...]\<newline>'' @
''\<newline>'' @
''Be concise but insightful.\<newline>'')"

text \<open>
  \<^verbatim>\<open>str.format\<close> with keyword arguments only. Outside a field, \<^verbatim>\<open>{{\<close> and \<^verbatim>\<open>}}\<close> stand
  for one brace and a single \<^verbatim>\<open>}\<close> is a \<open>ValueError\<close>. A field runs to the next \<^verbatim>\<open>}\<close>; its
  name is looked up in the arguments (\<open>KeyError\<close> when absent; an empty or numeric name
  asks for a positional argument, of which there is none). Conversions, format
  specifications, attribute and index access are not interpreted.
\<close>

datatype fstate = Lit | Field ustr

definition emit :: "ustr \<Rightarrow> error + ustr \<Rightarrow> error + ustr" where
  "emit xs r = (case r of Inl e \<Rightarrow> Inl e | Inr ys \<Rightarrow> Inr (xs @ ys))"

fun format_from :: "(ustr \<rightharpoonup> ustr) \<Rightarrow> fstate \<Rightarrow> ustr \<Rightarrow> error + ustr" where
  "format_from kw Lit [] = Inr []"
| "format_from kw (Field n) [] = Inl (ValueError (u ''expected '}' before end of string''))"
| "format_from kw Lit (c # cs) =
     (if c = 123 then
        (case cs of
           [] \<Rightarrow> Inl (ValueError (u ''Single '{' encountered in format string''))
         | d # ds \<Rightarrow>
             if d = 123 then emit [123] (format_from kw Lit ds)
             else format_from kw (Field []) cs)
      else if c = 125 then
        (case cs of
           [] \<Rightarrow> Inl (ValueError (u ''Single '}' encountered in format string''))
         | d # ds \<Rightarrow>
             if d = 125 then emit [125] (format_from kw Lit ds)
             else Inl (ValueError (u ''Single '}' encountered in format string'')))
      else emit [c] (format_from kw Lit cs))"
| "format_from kw (Field n) (c # cs) =
     (if c = 125 then
        (if n = [] \<or> list_all (\<lambda>d. 48 \<le> d \<and> d \<le> 57) n then Inl IndexError
         else case kw n of
                None \<Rightarrow> Inl (KeyError n)
              | Some v \<Rightarrow> emit v (format_from kw Lit cs))
      else if c = 33 \<or> c = 58 \<or> c = 46 \<or> c = 91 \<or> c = 123 then Inl Unsupported
      else format_from kw (Field (n @ [c])) cs)"

definition format :: "ustr \<Rightarrow> (ustr \<rightharpoonup> ustr) \<Rightarrow> error + ustr" where
  "format template kw = format_from kw Lit template"

definition build_prompt :: "item list \<Rightarrow> item list \<Rightarrow> ustr \<Rightarrow> error + ustr" where
  "build_prompt posts comments username =
     (let posts_section = section_of posts [''title'', ''body''];
          comments_section = section_of comments [''body'']
      in format PROMPT_TEMPLATE
           [u ''username'' \<mapsto> username,
            u ''posts_section'' \<mapsto> posts_section,
            u ''comments_section'' \<mapsto> comments_section])"

text \<open>
  The prompt template as the specification prints it (section 6): the lines between the
  fences, from \<^verbatim>\<open>Analyze\<close> to \<^verbatim>\<open>insightful.\<close>, and the prompt the specification describes:
  that template with its fields substituted.
\<close>

definition SPEC_TEMPLATE :: ustr where
  "SPEC_TEMPLATE = u (
''Analyze the following Reddit user's posts and comments to generate a detailed user persona.\<newline>'' @
''For each trait or insight, cite the source post or comment (full text or snippet) in the format: [source: ...].\<newline>'' @
''\<newline>'' @
''User: {username}\<newline>'' @
''\<newline>'' @
''Posts:\<newline>'' @
''{posts_section}\<newline>'' @
''\<newline>'' @
''Comments:\<newline>'' @
''{comments_section}\<newline>'' @
''\<newline>'' @
''Output format example:\<newline>'' @
''User Persona: {username}\<newline>'' @
''\<newline>'' @
''**Personality:** ... [source: ...]\<newline>'' @
''**Interests:** ... [source: ...]\<newline>'' @
''**Tone:** ... [source: ...]\<newline>'' @
''**Values & Communication:** ... [source: ...]\<newline>'' @
''\<newline>'' @
''Be concise but insightful.'')"

definition spec_prompt :: "ustr \<Rightarrow> ustr \<Rightarrow> ustr \<Rightarrow> error + ustr" where
  "spec_prompt username posts_section comments_section =
     format SPEC_TEMPLATE
       [u ''username'' \<mapsto> username,
        u ''posts_section'' \<mapsto> posts_section,
        u ''comments_section'' \<mapsto> comments_section]"

section \<open>The environment and the run\<close>

text \<open>
  \<^verbatim>\<open>except Exception\<close> catches every exception but those derived from \<^verbatim>\<open>BaseException\<close>
  alone, of which \<open>KeyboardInterrupt\<close> is the one modelled; \<^verbatim>\<open>except IOError\<close> catches
  \<open>OSError\<close> only.
\<close>

definition is_Exception :: "error \<Rightarrow> bool" where
  "is_Exception e = (e \<noteq> KeyboardInterrupt)"

definition is_IOError :: "error \<Rightarrow> bool" where
  "is_IOError e = (case e of OSError m \<Rightarrow> True | _ \<Rightarrow> False)"

text \<open>\<^verbatim>\<open>str(n)\<close> of a length: the decimal digits.\<close>

function str_nat :: "nat \<Rightarrow> ustr" where
  "str_nat n = (if n < 10 then [48 + n] else str_nat (n div 10) @ [48 + n mod 10])"
  by pat_completeness auto
termination
  by (relation "measure (\<lambda>n. n)") auto

text \<open>
  What a function does besides returning: the log records, the request sent to the
  generative model, the file opened and the file written. \<open>LogException m e\<close> is the
  record of \<^verbatim>\<open>logging.exception\<close> called with the text \<open>m\<close> followed by \<^verbatim>\<open>str(e)\<close>, while \<open>e\<close>
  is handled. \<open>FileOpen f\<close> is \<^verbatim>\<open>open(f, "w")\<close> succeeding: the file \<open>f\<close> is created or
  emptied. \<open>FileWrite f c\<close> is the file \<open>f\<close> closed with all of \<open>c\<close> in it.
\<close>

datatype event =
    LogInfo ustr
  | LogError ustr
  | LogException ustr error
  | ApiCall ustr
  | FileOpen ustr
  | FileWrite ustr ustr

text \<open>
  How a call ends: it returns a value, it leaves through \<^verbatim>\<open>sys.exit(n)\<close>, or an exception
  propagates to the caller.
\<close>

datatype 'a result = Ok 'a | Exit int | Raise error

text \<open>
  The platform client. A listing is a generator: it yields some elements and then either
  ends or raises. \<^verbatim>\<open>reddit.redditor(name)\<close> may raise as well.
\<close>

datatype submission = Submission (title: ustr) (selftext: ustr)

datatype comment = Comment (body: ustr)

datatype 'a listing = Listing (yielded: "'a list") (failure: "error option")

record reddit =
  redditor_error :: "ustr \<Rightarrow> error option"
  submissions_new :: "ustr \<Rightarrow> int \<Rightarrow> submission listing"
  comments_new :: "ustr \<Rightarrow> int \<Rightarrow> comment listing"

text \<open>
  The world of one run: the environment variables after \<^verbatim>\<open>load_dotenv()\<close>, the client
  that \<^verbatim>\<open>praw.Reddit\<close> gives, the answer of \<^verbatim>\<open>generate_content\<close> to a prompt (the text
  of the response, or the exception raised), and what becomes of writing a text to a
  file: it is written; or \<^verbatim>\<open>open\<close> raises and the file is not touched; or \<^verbatim>\<open>open\<close> has
  created or emptied the file and writing or closing raises, which leaves the file empty
  or with a part of the text.
\<close>

datatype write_result = Written | OpenFailed error | WriteFailed error

record world =
  environ :: "string \<rightharpoonup> ustr"
  client :: reddit
  generate_content :: "ustr \<Rightarrow> error + ustr"
  write_file :: "ustr \<Rightarrow> ustr \<Rightarrow> write_result"

definition getenv_truthy :: "world \<Rightarrow> string \<Rightarrow> bool" where
  "getenv_truthy w name = (case environ w name of None \<Rightarrow> False | Some v \<Rightarrow> v \<noteq> [])"

definition load_reddit_instance :: "world \<Rightarrow> reddit result \<times> event list" where
  "load_reddit_instance w =
     (if \<not> (getenv_truthy w ''REDDIT_CLIENT_ID'' \<and> getenv_truthy w ''REDDIT_CLIENT_SECRET'' \<and>
             getenv_truthy w ''REDDIT_USER_AGENT'')
      then (Exit 1,
            [LogError (u ''Missing one of REDDIT_CLIENT_ID, REDDIT_CLIENT_SECRET, REDDIT_USER_AGENT in .env'')])
      else (Ok (client w), []))"

definition post_item :: "submission \<Rightarrow> item" where
  "post_item sub = [''title'' \<mapsto> title sub, ''body'' \<mapsto> selftext sub]"

definition comment_item :: "comment \<Rightarrow> item" where
  "comment_item com = [''body'' \<mapsto> body com]"

text \<open>
  The \<^verbatim>\<open>except Exception\<close> clause of \<^verbatim>\<open>fetch_user_content\<close>, reached with the lists as
  they are when the exception is raised; the \<^verbatim>\<open>return\<close> follows it.
\<close>

definition fetch_handler ::
  "ustr \<Rightarrow> error \<Rightarrow> item list \<Rightarrow> item list \<Rightarrow> (item list \<times> item list) result \<times> event list" where
  "fetch_handler username e posts comments =
     (if is_Exception e
      then (Ok (posts, comments),
            [LogException (u ''Error fetching content for u/'' @ username @ u '': '') e])
      else (Raise e, []))"

definition fetch_user_content ::
  "reddit \<Rightarrow> ustr \<Rightarrow> int \<Rightarrow> int \<Rightarrow> (item list \<times> item list) result \<times> event list" where
  "fetch_user_content rd username post_limit comment_limit =
     (case redditor_error rd username of
        Some e \<Rightarrow> fetch_handler username e [] []
      | None \<Rightarrow>
          (let subs = submissions_new rd username post_limit;
               posts = map post_item (yielded subs)
           in case failure subs of
                Some e \<Rightarrow> fetch_handler username e posts []
              | None \<Rightarrow>
                  (let coms = comments_new rd username comment_limit;
                       comments = map comment_item (yielded coms)
                   in case failure coms of
                        Some e \<Rightarrow> fetch_handler username e posts comments
                      | None \<Rightarrow>
                          (Ok (posts, comments),
                           [LogInfo (u ''Fetched '' @ str_nat (length posts) @ u '' posts and '' @
                                     str_nat (length comments) @ u '' comments for u/'' @
                                     username @ u ''.'')]))))"

definition call_gemini_api :: "world \<Rightarrow> ustr \<Rightarrow> ustr result \<times> event list" where
  "call_gemini_api w prompt =
     (if \<not> getenv_truthy w ''GEMINI_API_KEY''
      then (Exit 1, [LogError (u ''GEMINI_API_KEY not set in environment.'')])
      else case generate_content w prompt of
             Inr text \<Rightarrow> (Ok (strip text), [ApiCall prompt])
           | Inl e \<Rightarrow>
               if is_Exception e
               then (Exit 1, [ApiCall prompt, LogException (u ''Gemini API call failed: '') e])
               else (Raise e, [ApiCall prompt]))"

definition save_persona :: "world \<Rightarrow> ustr \<Rightarrow> ustr \<Rightarrow> unit result \<times> event list" where
  "save_persona w username persona =
     (let filename = username @ u ''_persona.txt'';
          persona' = post_process_persona persona
      in case write_file w filename persona' of
           Written \<Rightarrow>
             (Ok (), [FileOpen filename, FileWrite filename persona',
                      LogInfo (u ''Persona saved to '' @ filename @ u ''.'')])
         | OpenFailed e \<Rightarrow>
             if is_IOError e
             then (Ok (), [LogException (u ''Failed to write persona file: '') e])
             else (Raise e, [])
         | WriteFailed e \<Rightarrow>
             if is_IOError e
             then (Ok (), [FileOpen filename, LogException (u ''Failed to write persona file: '') e])
             else (Raise e, [FileOpen filename]))"

definition run :: "world \<Rightarrow> ustr \<Rightarrow> int \<Rightarrow> int \<Rightarrow> unit result \<times> event list" where
  "run w username post_limit comment_limit =
     (case load_reddit_instance w of
        (Exit n, ev1) \<Rightarrow> (Exit n, ev1)
      | (Raise e, ev1) \<Rightarrow> (Raise e, ev1)
      | (Ok rd, ev1) \<Rightarrow>
          (case fetch_user_content rd username post_limit comment_limit of
             (Exit n, ev2) \<Rightarrow> (Exit n, ev1 @ ev2)
           | (Raise e, ev2) \<Rightarrow> (Raise e, ev1 @ ev2)
           | (Ok (posts, comments), ev2) \<Rightarrow>
               if posts = [] \<and> comments = []
               then (Exit 1,
                     ev1 @ ev2 @ [LogError (u ''No content found for u/'' @ username @ u ''. Exiting.'')])
               else
                 (case build_prompt posts comments username of
                    Inl e \<Rightarrow> (Raise e, ev1 @ ev2)
                  | Inr prompt \<Rightarrow>
                      (case call_gemini_api w prompt of
                         (Exit n, ev3) \<Rightarrow>
                           (Exit n, ev1 @ ev2 @ [LogInfo (u ''Calling Gemini API...'')] @ ev3)
                       | (Raise e, ev3) \<Rightarrow>
                           (Raise e, ev1 @ ev2 @ [LogInfo (u ''Calling Gemini API...'')] @ ev3)
                       | (Ok persona, ev3) \<Rightarrow>
                           (case save_persona w username persona of
                              (r, ev4) \<Rightarrow>
                                (r, ev1 @ ev2 @ [LogInfo (u ''Calling Gemini API...'')] @ ev3 @ ev4))))))"

text \<open>
  The exit status of the process when \<^verbatim>\<open>run\<close> ends a \<^verbatim>\<open>main\<close> that has nothing left to
  do: 0 after a return, \<open>n\<close> after \<^verbatim>\<open>sys.exit(n)\<close>. The status after an uncaught exception
  is the interpreter's and is left out.
\<close>

definition exit_status :: "unit result \<Rightarrow> int option" where
  "exit_status r = (case r of Ok x \<Rightarrow> Some 0 | Exit n \<Rightarrow> Some n | Raise e \<Rightarrow> None)"

section \<open>Sample inputs\<close>

text \<open>
  A comment of 301 letters without a space; a post of two words; a comment of two words
  of 200 letters each.
\<close>

definition unbroken_comment :: item where
  "unbroken_comment = [''body'' \<mapsto> replicate 301 97]"

definition hello_post :: item where
  "hello_post = [''title'' \<mapsto> u ''Hello'', ''body'' \<mapsto> u ''World'']"

definition two_word_comment :: item where
  "two_word_comment = [''body'' \<mapsto> replicate 200 97 @ 32 # replicate 200 98]"

text \<open>
  A cut after \<open>k\<close> characters of \<open>s\<close> is at a word boundary when it does not fall between
  two characters that are both no white space.
\<close>

definition word_boundary :: "ustr \<Rightarrow> nat \<Rightarrow> bool" where
  "word_boundary s k =
     (k = 0 \<or> length s \<le> k \<or> py_isspace (s ! k) \<or> py_isspace (s ! (k - 1)))"

text \<open>
  Three worlds with all credentials set. In the first the account has no content. In
  the second the listing of comments raises a rate-limit error after one comment, the
  model answers, and the file cannot be opened. The third is the second with a file that
  is opened and cannot be written.
\<close>

definition all_set :: "string \<rightharpoonup> ustr" where
  "all_set =
     [''REDDIT_CLIENT_ID'' \<mapsto> u ''id'', ''REDDIT_CLIENT_SECRET'' \<mapsto> u ''secret'',
      ''REDDIT_USER_AGENT'' \<mapsto> u ''agent'', ''GEMINI_API_KEY'' \<mapsto> u ''key'']"

definition empty_client :: reddit where
  "empty_client =
     \<lparr> redditor_error = (\<lambda>n. None),
       submissions_new = (\<lambda>n l. Listing [] None),
       comments_new = (\<lambda>n l. Listing [] None) \<rparr>"

definition limited_client :: reddit where
  "limited_client =
     \<lparr> redditor_error = (\<lambda>n. None),
       submissions_new = (\<lambda>n l. Listing [Submission (u ''Hello'') (u ''World'')] None),
       comments_new = (\<lambda>n l. Listing [Comment (u ''Nice!'')] (Some (LibraryError (u ''429'')))) \<rparr>"

definition empty_world :: world where
  "empty_world =
     \<lparr> environ = all_set, client = empty_client,
       generate_content = (\<lambda>p. Inr (u ''Personality: friendly'')),
       write_file = (\<lambda>f c. Written) \<rparr>"

definition readonly_world :: world where
  "readonly_world =
     \<lparr> environ = all_set, client = limited_client,
       generate_content = (\<lambda>p. Inr (u ''Personality: friendly'')),
       write_file = (\<lambda>f c. OpenFailed (OSError (u ''Read-only file system''))) \<rparr>"

definition full_disk_world :: world where
  "full_disk_world =
     \<lparr> environ = all_set, client = limited_client,
       generate_content = (\<lambda>p. Inr (u ''Personality: friendly'')),
       write_file = (\<lambda>f c. WriteFailed (OSError (u ''No space left on device''))) \<rparr>"

section \<open>Properties of the URL parser\<close>

lemma match_literal_iff: "match_literal p s = Some r \<longleftrightarrow> s = p @ r"
  by (induction p s rule: match_literal.induct) auto

lemma match_at_SomeD:
  assumes "match_at uni s = Some g"
  shows "g \<noteq> [] \<and> (\<forall>c\<in>set g. name_char uni c)"
proof -
  from assms obtain r where g: "g = takeWhile (name_char uni) r" and ne: "g \<noteq> []"
    by (auto simp: match_at_def Let_def split: option.splits if_splits)
  from g have "\<forall>c\<in>set g. name_char uni c"
    by (auto dest: set_takeWhileD)
  with ne show ?thesis by simp
qed

lemma re_search_SomeD:
  "re_search uni s = Some g \<Longrightarrow> g \<noteq> [] \<and> (\<forall>c\<in>set g. name_char uni c)"
proof (induction s)
  case Nil
  then show ?case using match_at_SomeD [of uni "[]" g] by simp
next
  case (Cons c cs)
  then show ?case using match_at_SomeD [of uni "c # cs" g]
    by (auto split: option.splits)
qed

lemma name_char_ascii:
  "name_char uni c \<Longrightarrow> c \<noteq> 47 \<and> c \<noteq> 46 \<and> \<not> (c < 128 \<and> py_isspace c)"
  by (auto simp: name_char_def re_word_def ascii_alnum_def py_isspace_def split: if_splits)

lemma match_at_None_iff:
  "match_at uni s = None \<longleftrightarrow>
     \<not> (\<exists>c rest. s = u ''reddit.com/user/'' @ c # rest \<and> name_char uni c)"
proof (cases "match_literal (u ''reddit.com/user/'') s")
  case None
  then have "\<forall>r. s \<noteq> u ''reddit.com/user/'' @ r"
    using match_literal_iff [of "u ''reddit.com/user/''" s] by simp
  with None show ?thesis by (auto simp: match_at_def)
next
  case (Some r)
  then have s: "s = u ''reddit.com/user/'' @ r" by (simp add: match_literal_iff)
  have "takeWhile (name_char uni) r = [] \<longleftrightarrow> \<not> (\<exists>c rest. r = c # rest \<and> name_char uni c)"
    by (cases r) auto
  with Some s show ?thesis by (auto simp: match_at_def Let_def)
qed

lemma re_search_None_iff:
  "re_search uni s = None \<longleftrightarrow> (\<forall>pre suf. s = pre @ suf \<longrightarrow> match_at uni suf = None)"
proof (induction s)
  case Nil
  then show ?case by simp
next
  case (Cons c cs)
  show ?case
  proof
    assume a: "re_search uni (c # cs) = None"
    then have m: "match_at uni (c # cs) = None" and r: "re_search uni cs = None"
      by (auto split: option.splits)
    show "\<forall>pre suf. c # cs = pre @ suf \<longrightarrow> match_at uni suf = None"
    proof (intro allI impI)
      fix pre suf assume e: "c # cs = pre @ suf"
      show "match_at uni suf = None"
      proof (cases pre)
        case Nil
        with e m show ?thesis by simp
      next
        case (Cons p ps)
        with e have "cs = ps @ suf" by simp
        with r Cons.IH show ?thesis by blast
      qed
    qed
  next
    assume a: "\<forall>pre suf. c # cs = pre @ suf \<longrightarrow> match_at uni suf = None"
    then have m: "match_at uni (c # cs) = None" by (metis append_Nil)
    have "\<forall>pre suf. cs = pre @ suf \<longrightarrow> match_at uni suf = None"
      using a by (metis append_Cons)
    with Cons.IH have "re_search uni cs = None" by simp
    with m show "re_search uni (c # cs) = None" by simp
  qed
qed

lemma not_name_char_slash: "\<not> name_char uni 47"
  by (simp add: name_char_def re_word_def ascii_alnum_def)

lemma match_at_run:
  assumes "name \<noteq> []" and "\<forall>c\<in>set name. name_char uni c"
    and "rest = [] \<or> \<not> name_char uni (hd rest)"
  shows "match_at uni (u ''reddit.com/user/'' @ name @ rest) = Some name"
proof -
  have "match_literal (u ''reddit.com/user/'') (u ''reddit.com/user/'' @ name @ rest) = Some (name @ rest)"
    by (simp add: match_literal_iff)
  moreover have "takeWhile (name_char uni) (name @ rest) = name"
    using assms(2,3) by (cases rest) (simp_all add: takeWhile_append2)
  ultimately show ?thesis using assms(1) by (simp add: match_at_def)
qed

text \<open>
  Claim C9. Whenever \<open>extract_username\<close> returns a name, the name is non-empty and every
  character of it is a word character or a hyphen; it holds no slash, no dot and no
  ASCII white space, and no white space at all when, as in the Unicode database, no
  white-space code point is alphanumeric.
\<close>

theorem extract_username_charset:
  assumes "extract_username uni url = Inr name"
  shows "name \<noteq> [] \<and> (\<forall>c\<in>set name. name_char uni c) \<and>
         (\<forall>c\<in>set name. c \<noteq> 47 \<and> c \<noteq> 46 \<and> \<not> (c < 128 \<and> py_isspace c)) \<and>
         ((\<forall>c. 128 \<le> c \<and> py_isspace c \<longrightarrow> \<not> uni c) \<longrightarrow> (\<forall>c\<in>set name. \<not> py_isspace c))"
proof -
  from assms have s: "re_search uni url = Some name"
    by (auto simp: extract_username_def split: option.splits)
  then have ne: "name \<noteq> []" and cs: "\<forall>c\<in>set name. name_char uni c"
    using re_search_SomeD [of uni url name] by simp_all
  have asc: "\<forall>c\<in>set name. c \<noteq> 47 \<and> c \<noteq> 46 \<and> \<not> (c < 128 \<and> py_isspace c)"
    using cs name_char_ascii [of uni] by blast
  have sp: "(\<forall>c. 128 \<le> c \<and> py_isspace c \<longrightarrow> \<not> uni c) \<longrightarrow> (\<forall>c\<in>set name. \<not> py_isspace c)"
  proof (intro impI ballI)
    fix c
    assume tab: "\<forall>c. 128 \<le> c \<and> py_isspace c \<longrightarrow> \<not> uni c" and c: "c \<in> set name"
    show "\<not> py_isspace c"
    proof (cases "c < 128")
      case True
      with asc c show ?thesis by blast
    next
      case False
      with cs c have "uni c" by (auto simp: name_char_def re_word_def py_isspace_def)
      with tab False show ?thesis by auto
    qed
  qed
  from ne cs asc sp show ?thesis by blast
qed

theorem extract_username_charset_witness:
  "extract_username uni_sample (u ''https://old.reddit.com/user/a-b_9'' @ [233] @ u ''.x/'') = Inr (u ''a-b_9'' @ [233])
   \<and> u ''a-b_9'' @ [233] \<noteq> []
   \<and> list_all (name_char uni_sample) (u ''a-b_9'' @ [233])
   \<and> list_all (\<lambda>c. c \<noteq> 47 \<and> c \<noteq> 46 \<and> \<not> py_isspace c) (u ''a-b_9'' @ [233])"
proof -
  have h: "extract_username uni_sample (u ''https://old.reddit.com/user/a-b_9'' @ [233] @ u ''.x/'') = Inr (u ''a-b_9'' @ [233])"
    by code_simp
  have t: "\<forall>c. 128 \<le> c \<and> py_isspace c \<longrightarrow> \<not> uni_sample c"
    by (auto simp: uni_sample_def py_isspace_def)
  show ?thesis using h t extract_username_charset [OF h]
    by (simp add: list_all_iff)
qed

text \<open>
  Claim C1, as the claim states its second half: a URL that lacks the shape
  \<^verbatim>\<open>https://reddit.com/user/<name>/\<close> is refused. The search is not anchored, so the
  pattern is found inside the query of a URL of another site, and a name is returned.
\<close>

theorem extract_username_unanchored_counterexample:
  "\<not> profile_form uni_sample (u ''https://example.com/?q=reddit.com/user/bob'') \<and>
   extract_username uni_sample (u ''https://example.com/?q=reddit.com/user/bob'') = Inr (u ''bob'')"
  by code_simp

text \<open>
  Claim C1, amended. For a non-empty name of word characters and hyphens,
  \<open>extract_username\<close> returns exactly the name from
  \<^verbatim>\<open>https://reddit.com/user/<name>/\<close>. It fails with \<open>ValueError\<close> exactly when the URL
  has no occurrence of \<^verbatim>\<open>reddit.com/user/\<close> followed by a word character or a hyphen,
  wherever in the string that occurrence is; the error is the \<open>ValueError\<close> whose message
  is \<^verbatim>\<open>Invalid Reddit profile URL: \<close> followed by the URL, and with such an occurrence a name is
  returned.
\<close>

theorem extract_username_search:
  "(name \<noteq> [] \<and> (\<forall>c\<in>set name. name_char uni c) \<longrightarrow>
      extract_username uni (u ''https://reddit.com/user/'' @ name @ u ''/'') = Inr name) \<and>
   (extract_username uni url = Inl (ValueError (u ''Invalid Reddit profile URL: '' @ url)) \<longleftrightarrow>
      \<not> (\<exists>pre c rest. url = pre @ u ''reddit.com/user/'' @ c # rest \<and> name_char uni c)) \<and>
   (extract_username uni url = Inl (ValueError (u ''Invalid Reddit profile URL: '' @ url)) \<or>
    (\<exists>found. extract_username uni url = Inr found))"
proof (intro conjI impI)
  assume a: "name \<noteq> [] \<and> (\<forall>c\<in>set name. name_char uni c)"
  have m: "match_at uni (u ''reddit.com/user/'' @ name @ u ''/'') = Some name"
    using a match_at_run [of name uni "u ''/''"] by (simp add: u_def not_name_char_slash)
  have "re_search uni (u ''https://'' @ (u ''reddit.com/user/'' @ name @ u ''/'')) = Some name"
    using m by (simp add: u_def match_at_def)
  then show "extract_username uni (u ''https://reddit.com/user/'' @ name @ u ''/'') = Inr name"
    by (simp add: extract_username_def u_def)
next
  have "extract_username uni url = Inl (ValueError (u ''Invalid Reddit profile URL: '' @ url)) \<longleftrightarrow>
      re_search uni url = None"
    by (auto simp: extract_username_def split: option.splits)
  also have "\<dots> \<longleftrightarrow> (\<forall>pre suf. url = pre @ suf \<longrightarrow> match_at uni suf = None)"
    by (rule re_search_None_iff)
  also have "\<dots> \<longleftrightarrow> \<not> (\<exists>pre c rest. url = pre @ u ''reddit.com/user/'' @ c # rest \<and> name_char uni c)"
    by (simp add: match_at_None_iff) blast
  finally show "extract_username uni url = Inl (ValueError (u ''Invalid Reddit profile URL: '' @ url)) \<longleftrightarrow>
      \<not> (\<exists>pre c rest. url = pre @ u ''reddit.com/user/'' @ c # rest \<and> name_char uni c)" .
next
  show "extract_username uni url = Inl (ValueError (u ''Invalid Reddit profile URL: '' @ url)) \<or>
    (\<exists>found. extract_username uni url = Inr found)"
    by (cases "re_search uni url") (simp_all add: extract_username_def)
qed

theorem extract_username_search_witness:
  "u ''kojied'' \<noteq> [] \<and> list_all (name_char uni_sample) (u ''kojied'') \<and>
   extract_username uni_sample (u ''https://reddit.com/user/kojied/'') = Inr (u ''kojied'')"
proof -
  have h: "u ''kojied'' \<noteq> [] \<and> (\<forall>c\<in>set (u ''kojied''). name_char uni_sample c)"
    by code_simp
  with extract_username_search [of "u ''kojied''" uni_sample "[]"]
  have "extract_username uni_sample (u ''https://reddit.com/user/'' @ u ''kojied'' @ u ''/'') = Inr (u ''kojied'')"
    by blast
  with h show ?thesis by (simp add: u_def list_all_iff)
qed

section \<open>Properties of the post-processor\<close>

lemma split_nl_nonempty: "split_nl t \<noteq> []"
  by (induction t) (auto split: list.splits)

lemma split_nl_Cons:
  "split_nl (c # cs) =
     (if c = 10 then [] # split_nl cs else (c # hd (split_nl cs)) # tl (split_nl cs))"
  using split_nl_nonempty [of cs] by (cases "split_nl cs") auto

lemma join_nl_simps [simp]:
  "join_nl [] = []" "join_nl [l] = l" "join_nl (l # m # ls) = l @ 10 # join_nl (m # ls)"
  by (simp_all add: join_nl_def)

lemma join_split_nl: "join_nl (split_nl t) = t"
proof (induction t)
  case Nil
  then show ?case by simp
next
  case (Cons c cs)
  obtain l ls where s: "split_nl cs = l # ls"
    using split_nl_nonempty [of cs] by (cases "split_nl cs") auto
  with Cons show ?case by (cases ls) auto
qed

lemma split_nl_append:
  "10 \<notin> set xs \<Longrightarrow> split_nl (xs @ ys) = (xs @ hd (split_nl ys)) # tl (split_nl ys)"
proof (induction xs)
  case Nil
  then show ?case using split_nl_nonempty [of ys] by simp
next
  case (Cons x xs)
  then show ?case by (simp add: split_nl_Cons del: split_nl.simps)
qed

lemma first_line_prefix: "\<exists>z. t = hd (split_nl t) @ z"
  by (induction t) (auto simp: split_nl_Cons simp del: split_nl.simps(2))

lemma not_heading_char [simp]: "\<not> heading_char 58" "\<not> heading_char 10" "\<not> heading_char 42"
  by (simp_all add: heading_char_def)

lemma heading_match_iff:
  "heading_match s = Some (g, rest) \<longleftrightarrow>
     s = g @ 58 # rest \<and> g \<noteq> [] \<and> (\<forall>c\<in>set g. heading_char c)"
proof
  assume a: "heading_match s = Some (g, rest)"
  then have d: "dropWhile heading_char s = 58 # rest" and t: "takeWhile heading_char s = g"
    and ne: "g \<noteq> []"
    by (auto simp: heading_match_def Let_def split: list.splits if_splits)
  have "s = takeWhile heading_char s @ dropWhile heading_char s" by simp
  with d t have "s = g @ 58 # rest" by simp
  moreover from t have "\<forall>c\<in>set g. heading_char c" by (auto dest: set_takeWhileD)
  ultimately show "s = g @ 58 # rest \<and> g \<noteq> [] \<and> (\<forall>c\<in>set g. heading_char c)"
    using ne by simp
next
  assume a: "s = g @ 58 # rest \<and> g \<noteq> [] \<and> (\<forall>c\<in>set g. heading_char c)"
  then have "takeWhile heading_char s = g" "dropWhile heading_char s = 58 # rest"
    by (simp_all add: takeWhile_append2 dropWhile_append2)
  with a show "heading_match s = Some (g, rest)" by (simp add: heading_match_def)
qed

lemma heading_match_first_line:
  "heading_match (hd (split_nl s)) = None \<longleftrightarrow> heading_match s = None"
proof
  assume a: "heading_match (hd (split_nl s)) = None"
  show "heading_match s = None"
  proof (rule ccontr)
    assume "heading_match s \<noteq> None"
    then obtain g rest where m: "heading_match s = Some (g, rest)" by auto
    then have s: "s = g @ 58 # rest" and ne: "g \<noteq> []" and hc: "\<forall>c\<in>set g. heading_char c"
      by (simp_all add: heading_match_iff)
    from hc have "10 \<notin> set (g @ [58])" by auto
    then have "split_nl ((g @ [58]) @ rest) = ((g @ [58]) @ hd (split_nl rest)) # tl (split_nl rest)"
      by (rule split_nl_append)
    with s have "hd (split_nl s) = g @ 58 # hd (split_nl rest)" by simp
    with ne hc have "heading_match (hd (split_nl s)) = Some (g, hd (split_nl rest))"
      by (simp add: heading_match_iff)
    with a show False by simp
  qed
next
  assume a: "heading_match s = None"
  show "heading_match (hd (split_nl s)) = None"
  proof (rule ccontr)
    assume "heading_match (hd (split_nl s)) \<noteq> None"
    then obtain g r where m: "heading_match (hd (split_nl s)) = Some (g, r)" by auto
    then have h: "hd (split_nl s) = g @ 58 # r" and ne: "g \<noteq> []" and hc: "\<forall>c\<in>set g. heading_char c"
      by (simp_all add: heading_match_iff)
    obtain z where "s = hd (split_nl s) @ z" using first_line_prefix by blast
    with h have "s = g @ 58 # (r @ z)" by simp
    with ne hc have "heading_match s = Some (g, r @ z)" by (simp add: heading_match_iff)
    with a show False by simp
  qed
qed

lemma split_nl_re_sub:
  "split_nl (re_sub bol t) =
     (if bol then map rewrite_line (split_nl t)
      else hd (split_nl t) # map rewrite_line (tl (split_nl t)))"
proof (induction bol t rule: re_sub.induct)
  case (1 bol)
  show ?case by (simp add: rewrite_line_def heading_match_def)
next
  case (2 bol c cs)
  show ?case
  proof (cases "if bol then heading_match (c # cs) else None")
    case None
    have IH: "split_nl (re_sub (c = 10) cs) =
        (if c = 10 then map rewrite_line (split_nl cs)
         else hd (split_nl cs) # map rewrite_line (tl (split_nl cs)))"
      using "2.IH"(1) [OF None] .
    have r: "re_sub bol (c # cs) = c # re_sub (c = 10) cs" using None by simp
    have keep: "bol \<Longrightarrow> rewrite_line (hd (split_nl (c # cs))) = hd (split_nl (c # cs))"
    proof -
      assume bol
      with None have "heading_match (c # cs) = None" by simp
      then have "heading_match (hd (split_nl (c # cs))) = None"
        by (simp only: heading_match_first_line)
      then show ?thesis by (simp add: rewrite_line_def)
    qed
    show ?thesis
    proof (cases "c = 10")
      case True
      with IH r keep show ?thesis by (auto simp: split_nl_Cons simp del: split_nl.simps)
    next
      case False
      with IH r keep show ?thesis by (auto simp: split_nl_Cons simp del: split_nl.simps)
    qed
  next
    case (Some p)
    obtain g rest where p: "p = (g, rest)" by (cases p)
    from Some p have bol: bol and m: "heading_match (c # cs) = Some (g, rest)"
      by (auto split: if_splits)
    from m have s: "c # cs = g @ 58 # rest" and ne: "g \<noteq> []" and hc: "\<forall>c\<in>set g. heading_char c"
      by (simp_all add: heading_match_iff)
    have IH: "split_nl (re_sub False rest) = hd (split_nl rest) # map rewrite_line (tl (split_nl rest))"
      using "2.IH"(2) [OF Some p [symmetric]] by simp
    have r: "re_sub bol (c # cs) = (u ''**'' @ g @ u '':**'') @ re_sub False rest"
      using Some p by simp
    have "10 \<notin> set (u ''**'' @ g @ u '':**'')" using hc by (auto simp: u_def)
    then have "split_nl ((u ''**'' @ g @ u '':**'') @ re_sub False rest) =
        ((u ''**'' @ g @ u '':**'') @ hd (split_nl (re_sub False rest))) #
        tl (split_nl (re_sub False rest))"
      by (rule split_nl_append)
    then have lhs: "split_nl (re_sub bol (c # cs)) =
        ((u ''**'' @ g @ u '':**'') @ hd (split_nl rest)) # map rewrite_line (tl (split_nl rest))"
      unfolding r IH by simp
    from hc have "10 \<notin> set (g @ [58])" by auto
    then have "split_nl ((g @ [58]) @ rest) = ((g @ [58]) @ hd (split_nl rest)) # tl (split_nl rest)"
      by (rule split_nl_append)
    with s have sp: "split_nl (c # cs) = (g @ 58 # hd (split_nl rest)) # tl (split_nl rest)" by simp
    have "heading_match (g @ 58 # hd (split_nl rest)) = Some (g, hd (split_nl rest))"
      using ne hc by (simp add: heading_match_iff)
    then have "rewrite_line (g @ 58 # hd (split_nl rest)) = u ''**'' @ g @ u '':**'' @ hd (split_nl rest)"
      by (simp add: rewrite_line_def)
    with lhs sp bol show ?thesis by simp
  qed
qed

lemma rewrite_line_idem: "rewrite_line (rewrite_line l) = rewrite_line l"
proof (cases "heading_match l")
  case None
  then show ?thesis by (simp add: rewrite_line_def)
next
  case (Some p)
  obtain g rest where "p = (g, rest)" by (cases p)
  with Some have r: "rewrite_line l = 42 # 42 # g @ u '':**'' @ rest"
    by (simp add: rewrite_line_def u_def)
  have "heading_match (42 # 42 # g @ u '':**'' @ rest) = None"
    by (simp add: heading_match_def)
  then show ?thesis unfolding r by (simp add: rewrite_line_def)
qed

lemma post_process_lines:
  "post_process_persona t = join_nl (map rewrite_line (split_nl t))"
proof -
  have "post_process_persona t = join_nl (split_nl (post_process_persona t))"
    by (simp add: join_split_nl)
  then show ?thesis by (simp add: post_process_persona_def split_nl_re_sub)
qed

text \<open>
  Claim C5. \<open>post_process_persona\<close> is idempotent: a rewritten line starts with an
  asterisk, which the pattern does not match, and every other line was left as it was.
\<close>

theorem post_process_persona_idempotent:
  "post_process_persona (post_process_persona t) = post_process_persona t"
proof -
  have "split_nl (post_process_persona t) = map rewrite_line (split_nl t)"
    by (simp add: post_process_persona_def split_nl_re_sub)
  then have "post_process_persona (post_process_persona t) =
      join_nl (map rewrite_line (map rewrite_line (split_nl t)))"
    by (simp add: post_process_lines [of "post_process_persona t"])
  also have "\<dots> = join_nl (map rewrite_line (split_nl t))"
    by (simp add: rewrite_line_idem comp_def)
  also have "\<dots> = post_process_persona t" by (simp add: post_process_lines)
  finally show ?thesis .
qed


text \<open>
  Claim C10. \<open>post_process_persona\<close> keeps the number of lines; a line that does not
  begin with a non-empty run of letters, spaces and ampersands followed by a colon is
  unchanged; a line that does is rewritten to the bold form of that run, and everything
  after its first colon is kept.
\<close>

theorem post_process_persona_frame:
  "length (split_nl (post_process_persona t)) = length (split_nl t) \<and>
   (\<forall>i<length (split_nl t).
      (\<not> (\<exists>g rest. split_nl t ! i = g @ 58 # rest \<and> g \<noteq> [] \<and> (\<forall>c\<in>set g. heading_char c)) \<longrightarrow>
         split_nl (post_process_persona t) ! i = split_nl t ! i) \<and>
      (\<forall>g rest. split_nl t ! i = g @ 58 # rest \<and> g \<noteq> [] \<and> (\<forall>c\<in>set g. heading_char c) \<longrightarrow>
         58 \<notin> set g \<and>
         split_nl (post_process_persona t) ! i = u ''**'' @ g @ u '':**'' @ rest))"
proof (intro conjI allI impI)
  have sp: "split_nl (post_process_persona t) = map rewrite_line (split_nl t)"
    by (simp add: post_process_persona_def split_nl_re_sub)
  show "length (split_nl (post_process_persona t)) = length (split_nl t)"
    by (simp add: sp)
  fix i assume i: "i < length (split_nl t)"
  then have nth: "split_nl (post_process_persona t) ! i = rewrite_line (split_nl t ! i)"
    by (simp add: sp)
  {
    assume "\<not> (\<exists>g rest. split_nl t ! i = g @ 58 # rest \<and> g \<noteq> [] \<and> (\<forall>c\<in>set g. heading_char c))"
    then have "\<forall>g rest. heading_match (split_nl t ! i) \<noteq> Some (g, rest)"
      by (auto simp: heading_match_iff)
    then have "heading_match (split_nl t ! i) = None"
      by (cases "heading_match (split_nl t ! i)") auto
    then show "split_nl (post_process_persona t) ! i = split_nl t ! i"
      by (simp add: nth rewrite_line_def)
  }
  fix g rest
  assume a: "split_nl t ! i = g @ 58 # rest \<and> g \<noteq> [] \<and> (\<forall>c\<in>set g. heading_char c)"
  then show "58 \<notin> set g" by auto
  from a have "heading_match (split_nl t ! i) = Some (g, rest)"
    by (simp add: heading_match_iff)
  then show "split_nl (post_process_persona t) ! i = u ''**'' @ g @ u '':**'' @ rest"
    by (simp add: nth rewrite_line_def)
qed

theorem post_process_persona_frame_witness:
  "length (split_nl (post_process_persona (u ''Tone: a:b'' @ 10 # u ''3 plain: x''))) = 2 \<and>
   split_nl (post_process_persona (u ''Tone: a:b'' @ 10 # u ''3 plain: x'')) ! 0 = u ''**Tone:** a:b'' \<and>
   split_nl (post_process_persona (u ''Tone: a:b'' @ 10 # u ''3 plain: x'')) ! 1 = u ''3 plain: x''"
proof -
  let ?t = "u ''Tone: a:b'' @ 10 # u ''3 plain: x''"
  have s: "split_nl ?t = [u ''Tone: a:b'', u ''3 plain: x'']" by code_simp
  have "heading_match (u ''3 plain: x'') = None" by code_simp
  then have n: "\<not> (\<exists>g rest. u ''3 plain: x'' = g @ 58 # rest \<and> g \<noteq> [] \<and> (\<forall>c\<in>set g. heading_char c))"
    using heading_match_iff [of "u ''3 plain: x''"] by auto
  have h: "u ''Tone: a:b'' = u ''Tone'' @ 58 # u '' a:b'' \<and> u ''Tone'' \<noteq> [] \<and>
      (\<forall>c\<in>set (u ''Tone''). heading_char c)"
    by (simp add: u_def heading_char_def)
  note f = post_process_persona_frame [of ?t]
  have i0: "0 < length (split_nl ?t)" and i1: "1 < length (split_nl ?t)"
    by (simp_all add: s)
  have l0: "split_nl ?t ! 0 = u ''Tone: a:b''" and l1: "split_nl ?t ! 1 = u ''3 plain: x''"
    by (simp_all add: s)
  from f have len: "length (split_nl (post_process_persona ?t)) = 2"
    by (simp add: s)
  note keep = f [THEN conjunct2, rule_format, OF i1, THEN conjunct1, rule_format]
  note bold = f [THEN conjunct2, rule_format, OF i0, THEN conjunct2, rule_format]
  have a1: "split_nl (post_process_persona ?t) ! 1 = u ''3 plain: x''"
    using keep n unfolding l1 by blast
  have "split_nl (post_process_persona ?t) ! 0 = u ''**'' @ u ''Tone'' @ u '':**'' @ u '' a:b''"
    using bold [of "u ''Tone''" "u '' a:b''"] h unfolding l0 by blast
  then have "split_nl (post_process_persona ?t) ! 0 = u ''**Tone:** a:b''"
    by (simp add: u_def)
  with len a1 show ?thesis by simp
qed

section \<open>Properties of the prompt builder\<close>

lemma rsplit1_head_cut:
  assumes "32 \<in> set s"
  shows "\<exists>k<length s. rsplit1_head s = take k s \<and> s ! k = 32 \<and> 32 \<notin> set (drop (Suc k) s)"
proof -
  from assms obtain a b where s: "s = a @ 32 # b" and b: "32 \<notin> set b"
    by (meson split_list_last)
  have "dropWhile (\<lambda>c. c \<noteq> 32) (rev s) = 32 # rev a"
    unfolding s using b by (auto simp: dropWhile_append3)
  with assms have "rsplit1_head s = a" by (simp add: rsplit1_head_def)
  with s b have "length a < length s \<and> rsplit1_head s = take (length a) s \<and>
      s ! length a = 32 \<and> 32 \<notin> set (drop (Suc (length a)) s)"
    by simp
  then show ?thesis by blast
qed

lemma truncate_long:
  assumes "300 < length c"
  shows "\<exists>k\<le>300. truncate_text c = take k c @ [8230] \<and>
           (if 32 \<in> set (take 300 c)
            then k < 300 \<and> c ! k = 32 \<and> 32 \<notin> set (drop (Suc k) (take 300 c))
            else k = 300)"
proof (cases "32 \<in> set (take 300 c)")
  case True
  from rsplit1_head_cut [OF True] obtain k where k: "k < length (take 300 c)"
    and r: "rsplit1_head (take 300 c) = take k (take 300 c)"
    and sp: "take 300 c ! k = 32" and last: "32 \<notin> set (drop (Suc k) (take 300 c))"
    by blast
  from k assms have k300: "k < 300" by simp
  with r have "rsplit1_head (take 300 c) = take k c" by (simp add: min_def)
  with assms have "truncate_text c = take k c @ [8230]" by (simp add: truncate_text_def)
  moreover from sp k300 have "c ! k = 32" by simp
  ultimately show ?thesis using True k300 last by (auto intro!: exI [of _ k])
next
  case False
  with assms have "truncate_text c = take 300 c @ [8230]"
    by (simp add: truncate_text_def rsplit1_head_def)
  with False show ?thesis by auto
qed

lemma replace_nl_id: "10 \<notin> set s \<Longrightarrow> replace_nl s = s"
  by (auto simp: replace_nl_def intro: map_idI)

lemma strip_id:
  assumes "s \<noteq> []" and "\<not> py_isspace (hd s)" and "\<not> py_isspace (last s)"
  shows "strip s = s"
proof -
  from assms(1,2) have "dropWhile py_isspace s = s" by (cases s) auto
  moreover from assms(1,3) have "dropWhile py_isspace (rev s) = rev s"
    by (cases "rev s") (auto simp: hd_rev [symmetric])
  ultimately show ?thesis by (simp add: strip_def)
qed

text \<open>
  Claim C2, as the claim states it: a text of more than 300 characters is cut at a word
  boundary. A text whose first 300 characters hold no space is cut after 300 characters,
  inside the word.
\<close>

theorem section_cut_inside_word_counterexample:
  "300 < length (clean_text unbroken_comment [''body'']) \<and>
   section_of [unbroken_comment] [''body''] =
     u ''- '' @ take 300 (clean_text unbroken_comment [''body'']) @ [8230] \<and>
   \<not> word_boundary (clean_text unbroken_comment [''body'']) 300"
proof -
  have c: "clean_text unbroken_comment [''body''] = replicate 301 97"
    by (simp add: clean_text_def snippet_def get_or_empty_def unbroken_comment_def
        replace_nl_id strip_id py_isspace_def)
  have "truncate_text (replicate 301 97) = take 300 (replicate 301 97) @ [8230]"
    by (simp add: truncate_text_def rsplit1_head_def)
  then have "section_of [unbroken_comment] [''body''] =
      u ''- '' @ take 300 (clean_text unbroken_comment [''body'']) @ [8230]"
    by (simp add: section_of_def item_line_def c)
  moreover have "\<not> word_boundary (replicate 301 97) 300"
    by (simp add: word_boundary_def py_isspace_def)
  ultimately show ?thesis by (simp add: c)
qed

text \<open>
  Claim C2, amended. An item whose cleaned text has at most 300 characters is rendered
  as the bullet and the cleaned text. A longer one is rendered as the bullet, the first
  \<open>k\<close> characters of the cleaned text and the marker U+2026, with \<open>k\<close> at most 300: when
  the first 300 characters hold a space, the cut is at the last of these spaces (a word
  boundary), and otherwise after all 300 characters. The section is these lines joined
  by line feeds.
\<close>

theorem item_line_truncation:
  "section_of items ks = join_nl (map (item_line ks) items) \<and>
   (length (clean_text item ks) \<le> 300 \<longrightarrow> item_line ks item = u ''- '' @ clean_text item ks) \<and>
   (300 < length (clean_text item ks) \<longrightarrow>
      (\<exists>k\<le>300. item_line ks item = u ''- '' @ take k (clean_text item ks) @ [8230] \<and>
         (if 32 \<in> set (take 300 (clean_text item ks))
          then k < 300 \<and> clean_text item ks ! k = 32 \<and>
               32 \<notin> set (drop (Suc k) (take 300 (clean_text item ks)))
          else k = 300)))"
proof (intro conjI impI)
  show "section_of items ks = join_nl (map (item_line ks) items)"
    by (simp add: section_of_def)
next
  assume "length (clean_text item ks) \<le> 300"
  then show "item_line ks item = u ''- '' @ clean_text item ks"
    by (simp add: item_line_def truncate_text_def)
next
  assume "300 < length (clean_text item ks)"
  from truncate_long [OF this] obtain k where "k \<le> 300"
    and "truncate_text (clean_text item ks) = take k (clean_text item ks) @ [8230]"
    and "if 32 \<in> set (take 300 (clean_text item ks))
         then k < 300 \<and> clean_text item ks ! k = 32 \<and>
              32 \<notin> set (drop (Suc k) (take 300 (clean_text item ks)))
         else k = 300"
    by blast
  then show "\<exists>k\<le>300. item_line ks item = u ''- '' @ take k (clean_text item ks) @ [8230] \<and>
         (if 32 \<in> set (take 300 (clean_text item ks))
          then k < 300 \<and> clean_text item ks ! k = 32 \<and>
               32 \<notin> set (drop (Suc k) (take 300 (clean_text item ks)))
          else k = 300)"
    by (auto simp: item_line_def)
qed

theorem item_line_truncation_witness:
  "length (clean_text hello_post [''title'', ''body'']) \<le> 300 \<and>
   item_line [''title'', ''body''] hello_post = u ''- Hello World'' \<and>
   300 < length (clean_text two_word_comment [''body'']) \<and>
   item_line [''body''] two_word_comment = u ''- '' @ replicate 200 97 @ [8230]"
proof -
  let ?c = "clean_text two_word_comment [''body'']"
  have c1: "clean_text hello_post [''title'', ''body''] = u ''Hello World''"
    by (simp add: clean_text_def snippet_def get_or_empty_def hello_post_def u_def
        replace_nl_id strip_id py_isspace_def)
  have c2: "?c = replicate 200 97 @ 32 # replicate 200 98"
    by (simp add: clean_text_def snippet_def get_or_empty_def two_word_comment_def
        replace_nl_id strip_id py_isspace_def hd_append)
  have l1: "length (clean_text hello_post [''title'', ''body'']) \<le> 300"
    by (simp add: c1 u_def)
  have l2: "300 < length ?c"
    by (simp add: c2)
  have "?c ! 200 = 32" by (simp add: c2 nth_append)
  moreover have "(200::nat) < length (take 300 ?c)" by (simp add: c2)
  ultimately have "take 300 ?c ! 200 = 32" by simp
  then have sp: "32 \<in> set (take 300 ?c)"
    using \<open>200 < length (take 300 ?c)\<close> by (metis nth_mem)
  note short = item_line_truncation
    [of "[]" "[''title'', ''body'']" hello_post, THEN conjunct2, THEN conjunct1, rule_format, OF l1]
  note long = item_line_truncation
    [of "[]" "[''body'']" two_word_comment, THEN conjunct2, THEN conjunct2, rule_format, OF l2]
  from short have a1: "item_line [''title'', ''body''] hello_post = u ''- Hello World''"
    by (simp add: c1 u_def)
  from long obtain k where line: "item_line [''body''] two_word_comment = u ''- '' @ take k ?c @ [8230]"
    and cut: "if 32 \<in> set (take 300 ?c)
              then k < 300 \<and> ?c ! k = 32 \<and> 32 \<notin> set (drop (Suc k) (take 300 ?c))
              else k = 300"
    by blast
  from cut sp have k: "k < 300" and at: "?c ! k = 32" by simp_all
  have "k = 200"
  proof (rule ccontr)
    assume ne: "k \<noteq> 200"
    show False
    proof (cases "k < 200")
      case True
      then have "?c ! k = 97" by (simp add: c2 nth_append)
      with at show False by simp
    next
      case False
      with ne k have "k - 200 - 1 < 200" and "k - 200 \<noteq> 0" by simp_all
      with False have "?c ! k = 98" by (simp add: c2 nth_append nth_Cons')
      with at show False by simp
    qed
  qed
  with line have "item_line [''body''] two_word_comment = u ''- '' @ replicate 200 97 @ [8230]"
    by (simp add: c2)
  with l1 a1 l2 show ?thesis by simp
qed

lemma emit_Inr [simp]: "emit xs (Inr ys) = Inr (xs @ ys)"
  by (simp add: emit_def)

lemma set_strip: "set (strip s) \<subseteq> set s"
  by (auto simp: strip_def dest!: set_dropWhileD)

lemma set_rsplit1_head: "set (rsplit1_head s) \<subseteq> set s"
proof (cases "32 \<in> set s")
  case True
  from rsplit1_head_cut [OF True] obtain k where "rsplit1_head s = take k s" by blast
  then show ?thesis by (simp add: set_take_subset)
next
  case False
  then show ?thesis by (simp add: rsplit1_head_def)
qed

lemma item_line_no_nl: "10 \<notin> set (item_line ks item)"
proof -
  have r: "10 \<notin> set (replace_nl s)" for s by (auto simp: replace_nl_def)
  have c: "10 \<notin> set (clean_text item ks)"
    using set_strip [of "replace_nl (snippet item ks)"] r [of "snippet item ks"]
    by (auto simp: clean_text_def)
  have "set (truncate_text (clean_text item ks)) \<subseteq> insert 8230 (set (clean_text item ks))"
    using set_rsplit1_head [of "take 300 (clean_text item ks)"]
      set_take_subset [of 300 "clean_text item ks"]
    by (auto simp: truncate_text_def)
  with c have "10 \<notin> set (truncate_text (clean_text item ks))" by auto
  then show ?thesis by (simp add: item_line_def u_def)
qed

lemma build_prompt_eq:
  "build_prompt posts comments username =
     Inr (u (''\<newline>'' @
''Analyze the following Reddit user's posts and comments to generate a detailed user persona.\<newline>'' @
''For each trait or insight, cite the source post or comment (full text or snippet) in the format: [source: ...].\<newline>'' @
''\<newline>'' @
''User: '') @ username @ u (''\<newline>'' @
''\<newline>'' @
''Posts:\<newline>'') @
join_nl (map (item_line [''title'', ''body'']) posts) @ u (''\<newline>'' @
''\<newline>'' @
''Comments:\<newline>'') @
join_nl (map (item_line [''body'']) comments) @ u (''\<newline>'' @
''\<newline>'' @
''Output format example:\<newline>'' @
''User Persona: '') @ username @ u (''\<newline>'' @
''\<newline>'' @
''**Personality:** ... [source: ...]\<newline>'' @
''**Interests:** ... [source: ...]\<newline>'' @
''**Tone:** ... [source: ...]\<newline>'' @
''**Values & Communication:** ... [source: ...]\<newline>'' @
''\<newline>'' @
''Be concise but insightful.\<newline>''))"
  by (simp add: build_prompt_def format_def PROMPT_TEMPLATE_def section_of_def u_def Let_def)

lemma build_prompt_Inr: "\<exists>prompt. build_prompt posts comments username = Inr prompt"
  using build_prompt_eq [of posts comments username] by blast

lemma join_nl_concat:
  "join_nl ls = (case ls of [] \<Rightarrow> [] | l # ms \<Rightarrow> l @ concat (map ((#) 10) ms))"
proof (induction ls rule: str_join.induct [of _ "[10]"])
  case 1
  show ?case by simp
next
  case (2 l)
  show ?case by simp
next
  case (3 l m ls)
  then show ?case by simp
qed

lemma spec_prompt_eq:
  "spec_prompt username posts_section comments_section =
     Inr (u (
''Analyze the following Reddit user's posts and comments to generate a detailed user persona.\<newline>'' @
''For each trait or insight, cite the source post or comment (full text or snippet) in the format: [source: ...].\<newline>'' @
''\<newline>'' @
''User: '') @ username @ u (''\<newline>'' @
''\<newline>'' @
''Posts:\<newline>'') @
posts_section @ u (''\<newline>'' @
''\<newline>'' @
''Comments:\<newline>'') @
comments_section @ u (''\<newline>'' @
''\<newline>'' @
''Output format example:\<newline>'' @
''User Persona: '') @ username @ u (''\<newline>'' @
''\<newline>'' @
''**Personality:** ... [source: ...]\<newline>'' @
''**Interests:** ... [source: ...]\<newline>'' @
''**Tone:** ... [source: ...]\<newline>'' @
''**Values & Communication:** ... [source: ...]\<newline>'' @
''\<newline>'' @
''Be concise but insightful.''))"
  by (simp add: spec_prompt_def format_def SPEC_TEMPLATE_def u_def)

lemma build_prompt_spec_prompt:
  "\<exists>body. spec_prompt username (section_of posts [''title'', ''body''])
              (section_of comments [''body'']) = Inr body \<and>
          build_prompt posts comments username = Inr (10 # body @ [10])"
  by (simp add: spec_prompt_eq build_prompt_eq section_of_def u_def)

text \<open>
  Claim C4, as the claim states it: the prompt is the template of the specification with
  its fields substituted and nothing added. The template literal of the source opens
  with a line break after its quotes, so the prompt opens with a line feed that the
  template of the specification does not have.
\<close>

theorem build_prompt_leading_newline_counterexample:
  "build_prompt [] [] (u ''kojied'') \<noteq> spec_prompt (u ''kojied'') [] []"
proof -
  obtain body where s: "spec_prompt (u ''kojied'') (section_of [] [''title'', ''body''])
      (section_of [] [''body'']) = Inr body"
    and b: "build_prompt [] [] (u ''kojied'') = Inr (10 # body @ [10])"
    using build_prompt_spec_prompt [of "u ''kojied''" "[]" "[]"] by blast
  from s have "spec_prompt (u ''kojied'') [] [] = Inr body" by (simp add: section_of_def)
  moreover have "10 # body @ [10] \<noteq> body"
  proof
    assume "10 # body @ [10] = body"
    then have "length (10 # body @ [10]) = length body" by simp
    then show False by simp
  qed
  ultimately show ?thesis using b by simp
qed

text \<open>
  Claim C4, amended. \<open>build_prompt\<close> never fails. Its result is a line feed, the template
  of the specification with the user name in its two places, the block of posts and the
  block of comments substituted, and a line feed; nothing else. The template of the
  source is the one of the specification between two line feeds. A block is empty for
  no item, and else the line of the first item followed, for every further item, by a
  line feed and the line of that item; the line of an item opens with the bullet and
  holds no line feed.
\<close>

theorem build_prompt_template:
  "PROMPT_TEMPLATE = 10 # SPEC_TEMPLATE @ [10] \<and>
   build_prompt posts comments username =
     Inr (10 # (u (
''Analyze the following Reddit user's posts and comments to generate a detailed user persona.\<newline>'' @
''For each trait or insight, cite the source post or comment (full text or snippet) in the format: [source: ...].\<newline>'' @
''\<newline>'' @
''User: '') @ username @ u (''\<newline>'' @
''\<newline>'' @
''Posts:\<newline>'') @
(case map (item_line [''title'', ''body'']) posts of
   [] \<Rightarrow> [] | l # ms \<Rightarrow> l @ concat (map ((#) 10) ms)) @ u (''\<newline>'' @
''\<newline>'' @
''Comments:\<newline>'') @
(case map (item_line [''body'']) comments of
   [] \<Rightarrow> [] | l # ms \<Rightarrow> l @ concat (map ((#) 10) ms)) @ u (''\<newline>'' @
''\<newline>'' @
''Output format example:\<newline>'' @
''User Persona: '') @ username @ u (''\<newline>'' @
''\<newline>'' @
''**Personality:** ... [source: ...]\<newline>'' @
''**Interests:** ... [source: ...]\<newline>'' @
''**Tone:** ... [source: ...]\<newline>'' @
''**Values & Communication:** ... [source: ...]\<newline>'' @
''\<newline>'' @
''Be concise but insightful.'')) @ [10]) \<and>
   (\<exists>body. spec_prompt username
              (case map (item_line [''title'', ''body'']) posts of
                 [] \<Rightarrow> [] | l # ms \<Rightarrow> l @ concat (map ((#) 10) ms))
              (case map (item_line [''body'']) comments of
                 [] \<Rightarrow> [] | l # ms \<Rightarrow> l @ concat (map ((#) 10) ms)) = Inr body \<and>
           build_prompt posts comments username = Inr (10 # body @ [10])) \<and>
   take 2 (item_line ks item) = u ''- '' \<and>
   10 \<notin> set (item_line ks item)"
proof (intro conjI)
  show "PROMPT_TEMPLATE = 10 # SPEC_TEMPLATE @ [10]"
    by (simp add: PROMPT_TEMPLATE_def SPEC_TEMPLATE_def u_def)
  have j: "join_nl ls = (case ls of [] \<Rightarrow> [] | l # ms \<Rightarrow> l @ concat (map ((#) 10) ms))" for ls
    by (rule join_nl_concat)
  show "build_prompt posts comments username =
     Inr (10 # (u (
''Analyze the following Reddit user's posts and comments to generate a detailed user persona.\<newline>'' @
''For each trait or insight, cite the source post or comment (full text or snippet) in the format: [source: ...].\<newline>'' @
''\<newline>'' @
''User: '') @ username @ u (''\<newline>'' @
''\<newline>'' @
''Posts:\<newline>'') @
(case map (item_line [''title'', ''body'']) posts of
   [] \<Rightarrow> [] | l # ms \<Rightarrow> l @ concat (map ((#) 10) ms)) @ u (''\<newline>'' @
''\<newline>'' @
''Comments:\<newline>'') @
(case map (item_line [''body'']) comments of
   [] \<Rightarrow> [] | l # ms \<Rightarrow> l @ concat (map ((#) 10) ms)) @ u (''\<newline>'' @
''\<newline>'' @
''Output format example:\<newline>'' @
''User Persona: '') @ username @ u (''\<newline>'' @
''\<newline>'' @
''**Personality:** ... [source: ...]\<newline>'' @
''**Interests:** ... [source: ...]\<newline>'' @
''**Tone:** ... [source: ...]\<newline>'' @
''**Values & Communication:** ... [source: ...]\<newline>'' @
''\<newline>'' @
''Be concise but insightful.'')) @ [10])"
    unfolding j [symmetric] by (simp add: build_prompt_eq u_def)
  show "\<exists>body. spec_prompt username
              (case map (item_line [''title'', ''body'']) posts of
                 [] \<Rightarrow> [] | l # ms \<Rightarrow> l @ concat (map ((#) 10) ms))
              (case map (item_line [''body'']) comments of
                 [] \<Rightarrow> [] | l # ms \<Rightarrow> l @ concat (map ((#) 10) ms)) = Inr body \<and>
           build_prompt posts comments username = Inr (10 # body @ [10])"
    unfolding j [symmetric]
    using build_prompt_spec_prompt [of username posts comments] by (simp add: section_of_def)
  show "take 2 (item_line ks item) = u ''- ''"
    by (simp add: item_line_def u_def)
  show "10 \<notin> set (item_line ks item)"
    by (rule item_line_no_nl)
qed

section \<open>Properties of the run\<close>

lemma fetch_handler_cases:
  "fetch_handler n e ps cs =
     (Ok (ps, cs), [LogException (u ''Error fetching content for u/'' @ n @ u '': '') e]) \<or>
   fetch_handler n e ps cs = (Raise e, []) \<and> \<not> is_Exception e"
  by (simp add: fetch_handler_def)

lemma fetch_events_logs:
  "ev \<in> set (snd (fetch_user_content rd n pl cl)) \<Longrightarrow>
     (\<exists>m e. ev = LogInfo m \<or> ev = LogException m e)"
  by (auto simp: fetch_user_content_def fetch_handler_def Let_def
      split: option.splits if_splits)

lemma fetch_never_exits: "fst (fetch_user_content rd n pl cl) \<noteq> Exit k"
  by (auto simp: fetch_user_content_def fetch_handler_def Let_def
      split: option.splits if_splits)

text \<open>
  Claim C6. An exception of class \<^verbatim>\<open>Exception\<close> raised by the client, wherever the
  fetch is, is caught and logged, and \<open>fetch_user_content\<close> returns the posts and
  comments appended so far: none when \<^verbatim>\<open>redditor\<close> raises, the posts yielded when the
  listing of submissions raises, all posts and the comments yielded when the listing of
  comments raises. What leaves \<open>fetch_user_content\<close> as an exception is no \<^verbatim>\<open>Exception\<close>.
\<close>

theorem fetch_user_content_swallows:
  "(redditor_error rd n = Some e \<and> is_Exception e \<longrightarrow>
      fetch_user_content rd n pl cl =
        (Ok ([], []),
         [LogException (u ''Error fetching content for u/'' @ n @ u '': '') e])) \<and>
   (redditor_error rd n = None \<and> submissions_new rd n pl = Listing subs (Some e) \<and>
    is_Exception e \<longrightarrow>
      fetch_user_content rd n pl cl =
        (Ok (map post_item subs, []),
         [LogException (u ''Error fetching content for u/'' @ n @ u '': '') e])) \<and>
   (redditor_error rd n = None \<and> submissions_new rd n pl = Listing subs None \<and>
    comments_new rd n cl = Listing coms (Some e) \<and> is_Exception e \<longrightarrow>
      fetch_user_content rd n pl cl =
        (Ok (map post_item subs, map comment_item coms),
         [LogException (u ''Error fetching content for u/'' @ n @ u '': '') e])) \<and>
   (fst (fetch_user_content rd n pl cl) = Raise e' \<longrightarrow> \<not> is_Exception e')"
proof (intro conjI impI)
  assume "redditor_error rd n = Some e \<and> is_Exception e"
  then show "fetch_user_content rd n pl cl =
      (Ok ([], []),
       [LogException (u ''Error fetching content for u/'' @ n @ u '': '') e])"
    by (simp add: fetch_user_content_def fetch_handler_def)
next
  assume "redditor_error rd n = None \<and> submissions_new rd n pl = Listing subs (Some e) \<and>
    is_Exception e"
  then show "fetch_user_content rd n pl cl =
      (Ok (map post_item subs, []),
       [LogException (u ''Error fetching content for u/'' @ n @ u '': '') e])"
    by (simp add: fetch_user_content_def fetch_handler_def)
next
  assume "redditor_error rd n = None \<and> submissions_new rd n pl = Listing subs None \<and>
    comments_new rd n cl = Listing coms (Some e) \<and> is_Exception e"
  then show "fetch_user_content rd n pl cl =
      (Ok (map post_item subs, map comment_item coms),
       [LogException (u ''Error fetching content for u/'' @ n @ u '': '') e])"
    by (simp add: fetch_user_content_def fetch_handler_def)
next
  assume "fst (fetch_user_content rd n pl cl) = Raise e'"
  then show "\<not> is_Exception e'"
    by (auto simp: fetch_user_content_def fetch_handler_def Let_def
        split: option.splits if_splits)
qed

theorem fetch_user_content_swallows_witness:
  "is_Exception (LibraryError (u ''429'')) \<and>
   fetch_user_content limited_client (u ''kojied'') 1 1 =
     (Ok ([post_item (Submission (u ''Hello'') (u ''World''))],
          [comment_item (Comment (u ''Nice!''))]),
      [LogException (u ''Error fetching content for u/kojied: '') (LibraryError (u ''429''))])"
proof -
  have h: "redditor_error limited_client (u ''kojied'') = None \<and>
      submissions_new limited_client (u ''kojied'') 1 =
        Listing [Submission (u ''Hello'') (u ''World'')] None \<and>
      comments_new limited_client (u ''kojied'') 1 =
        Listing [Comment (u ''Nice!'')] (Some (LibraryError (u ''429''))) \<and>
      is_Exception (LibraryError (u ''429''))"
    by (simp add: limited_client_def is_Exception_def)
  note t = fetch_user_content_swallows
    [of limited_client "u ''kojied''" "LibraryError (u ''429'')" 1 1
        "[Submission (u ''Hello'') (u ''World'')]" "[Comment (u ''Nice!'')]",
     THEN conjunct2, THEN conjunct2, THEN conjunct1, rule_format, OF h]
  from h t show ?thesis by (simp add: u_def)
qed

text \<open>
  Claim C3. When the fetch yields no post and no comment, the run leaves through
  \<^verbatim>\<open>sys.exit(1)\<close> at the guard that follows the fetch: its last record is the error
  message of the guard, no request is sent to the generative model and no file is
  opened or written.
\<close>

theorem run_no_content:
  assumes "fst (load_reddit_instance w) = Ok rd"
    and "fst (fetch_user_content rd n pl cl) = Ok ([], [])"
  shows "fst (run w n pl cl) = Exit 1 \<and>
         exit_status (fst (run w n pl cl)) = Some 1 \<and>
         snd (run w n pl cl) =
           snd (fetch_user_content rd n pl cl) @
           [LogError (u ''No content found for u/'' @ n @ u ''. Exiting.'')] \<and>
         (\<forall>p. ApiCall p \<notin> set (snd (run w n pl cl))) \<and>
         (\<forall>f c. FileWrite f c \<notin> set (snd (run w n pl cl))) \<and>
         (\<forall>f. FileOpen f \<notin> set (snd (run w n pl cl)))"
proof -
  from assms(1) have l: "load_reddit_instance w = (Ok rd, [])"
    by (auto simp: load_reddit_instance_def split: if_splits)
  obtain ev where f: "fetch_user_content rd n pl cl = (Ok ([], []), ev)"
    using assms(2) by (cases "fetch_user_content rd n pl cl") auto
  have r: "run w n pl cl =
      (Exit 1, ev @ [LogError (u ''No content found for u/'' @ n @ u ''. Exiting.'')])"
    by (simp add: run_def l f)
  have "\<forall>x\<in>set ev. \<exists>m e. x = LogInfo m \<or> x = LogException m e"
    using fetch_events_logs [of _ rd n pl cl] by (simp add: f)
  then have "(\<forall>p. ApiCall p \<notin> set ev) \<and> (\<forall>f c. FileWrite f c \<notin> set ev) \<and>
      (\<forall>f. FileOpen f \<notin> set ev)"
    by auto
  then show ?thesis by (simp add: r f exit_status_def)
qed

theorem run_no_content_witness:
  "fst (load_reddit_instance empty_world) = Ok empty_client \<and>
   fst (fetch_user_content empty_client (u ''kojied'') 20 20) = Ok ([], []) \<and>
   fst (run empty_world (u ''kojied'') 20 20) = Exit 1 \<and>
   exit_status (fst (run empty_world (u ''kojied'') 20 20)) = Some 1"
proof -
  have l: "fst (load_reddit_instance empty_world) = Ok empty_client"
    by (simp add: load_reddit_instance_def getenv_truthy_def empty_world_def all_set_def u_def)
  have f: "fst (fetch_user_content empty_client (u ''kojied'') 20 20) = Ok ([], [])"
    by (simp add: fetch_user_content_def empty_client_def)
  from run_no_content [OF l f] l f show ?thesis by blast
qed

text \<open>
  Claim C8. In a run that reaches the save step, an \<open>OSError\<close> raised while the persona
  file is opened, written or closed is caught and logged by \<open>save_persona\<close>, which
  returns; the run returns as well, and the process ends with status 0. Whether the
  file holds the persona afterwards is not said: when the error comes after the file was
  opened, the file has been created or emptied.
\<close>

theorem run_write_failure:
  assumes "fst (load_reddit_instance w) = Ok rd"
    and "fst (fetch_user_content rd n pl cl) = Ok (posts, comments)"
    and "posts \<noteq> [] \<or> comments \<noteq> []"
    and "build_prompt posts comments n = Inr prompt"
    and "fst (call_gemini_api w prompt) = Ok persona"
    and "write_file w (n @ u ''_persona.txt'') (post_process_persona persona) = OpenFailed e \<or>
         write_file w (n @ u ''_persona.txt'') (post_process_persona persona) = WriteFailed e"
    and "is_IOError e"
  shows "save_persona w n persona =
           (Ok (),
            (if write_file w (n @ u ''_persona.txt'') (post_process_persona persona) = OpenFailed e
             then [] else [FileOpen (n @ u ''_persona.txt'')]) @
            [LogException (u ''Failed to write persona file: '') e]) \<and>
         fst (run w n pl cl) = Ok () \<and>
         exit_status (fst (run w n pl cl)) = Some 0 \<and>
         LogException (u ''Failed to write persona file: '') e \<in> set (snd (run w n pl cl))"
proof -
  from assms(1) have l: "load_reddit_instance w = (Ok rd, [])"
    by (auto simp: load_reddit_instance_def split: if_splits)
  obtain ev2 where f: "fetch_user_content rd n pl cl = (Ok (posts, comments), ev2)"
    using assms(2) by (cases "fetch_user_content rd n pl cl") auto
  obtain ev3 where g: "call_gemini_api w prompt = (Ok persona, ev3)"
    using assms(5) by (cases "call_gemini_api w prompt") auto
  have s: "save_persona w n persona =
      (Ok (),
       (if write_file w (n @ u ''_persona.txt'') (post_process_persona persona) = OpenFailed e
        then [] else [FileOpen (n @ u ''_persona.txt'')]) @
       [LogException (u ''Failed to write persona file: '') e])"
    using assms(6,7) by (auto simp: save_persona_def Let_def)
  have r: "run w n pl cl =
      (Ok (), ev2 @ [LogInfo (u ''Calling Gemini API...'')] @ ev3 @ snd (save_persona w n persona))"
    using assms(3) by (auto simp: run_def l f g s assms(4))
  have "LogException (u ''Failed to write persona file: '') e \<in> set (snd (save_persona w n persona))"
    by (simp add: s)
  with r s show ?thesis by (simp add: exit_status_def)
qed

theorem run_write_failure_witness:
  "is_IOError (OSError (u ''Read-only file system'')) \<and>
   is_IOError (OSError (u ''No space left on device'')) \<and>
   save_persona readonly_world (u ''kojied'') (u ''Personality: friendly'') =
     (Ok (), [LogException (u ''Failed to write persona file: '') (OSError (u ''Read-only file system''))]) \<and>
   fst (run readonly_world (u ''kojied'') 1 1) = Ok () \<and>
   exit_status (fst (run readonly_world (u ''kojied'') 1 1)) = Some 0 \<and>
   save_persona full_disk_world (u ''kojied'') (u ''Personality: friendly'') =
     (Ok (), [FileOpen (u ''kojied_persona.txt''),
              LogException (u ''Failed to write persona file: '') (OSError (u ''No space left on device''))]) \<and>
   fst (run full_disk_world (u ''kojied'') 1 1) = Ok () \<and>
   exit_status (fst (run full_disk_world (u ''kojied'') 1 1)) = Some 0"
proof -
  let ?posts = "[post_item (Submission (u ''Hello'') (u ''World''))]"
  let ?comments = "[comment_item (Comment (u ''Nice!''))]"
  have l1: "fst (load_reddit_instance readonly_world) = Ok limited_client"
    by (simp add: load_reddit_instance_def getenv_truthy_def readonly_world_def all_set_def u_def)
  have l2: "fst (load_reddit_instance full_disk_world) = Ok limited_client"
    by (simp add: load_reddit_instance_def getenv_truthy_def full_disk_world_def all_set_def u_def)
  have f: "fst (fetch_user_content limited_client (u ''kojied'') 1 1) = Ok (?posts, ?comments)"
    by (simp add: fetch_user_content_def fetch_handler_def limited_client_def is_Exception_def)
  have ne: "?posts \<noteq> [] \<or> ?comments \<noteq> []" by simp
  obtain prompt where p: "build_prompt ?posts ?comments (u ''kojied'') = Inr prompt"
    using build_prompt_Inr by blast
  have st: "strip (u ''Personality: friendly'') = u ''Personality: friendly''"
    by (simp add: strip_id u_def py_isspace_def)
  have g1: "fst (call_gemini_api readonly_world prompt) = Ok (u ''Personality: friendly'')"
    by (simp add: call_gemini_api_def getenv_truthy_def readonly_world_def all_set_def st)
      (simp add: u_def)
  have g2: "fst (call_gemini_api full_disk_world prompt) = Ok (u ''Personality: friendly'')"
    by (simp add: call_gemini_api_def getenv_truthy_def full_disk_world_def all_set_def st)
      (simp add: u_def)
  have w1: "write_file readonly_world (u ''kojied'' @ u ''_persona.txt'')
        (post_process_persona (u ''Personality: friendly'')) =
          OpenFailed (OSError (u ''Read-only file system'')) \<or>
      write_file readonly_world (u ''kojied'' @ u ''_persona.txt'')
        (post_process_persona (u ''Personality: friendly'')) =
          WriteFailed (OSError (u ''Read-only file system''))"
    by (simp add: readonly_world_def)
  have w2: "write_file full_disk_world (u ''kojied'' @ u ''_persona.txt'')
        (post_process_persona (u ''Personality: friendly'')) =
          OpenFailed (OSError (u ''No space left on device'')) \<or>
      write_file full_disk_world (u ''kojied'' @ u ''_persona.txt'')
        (post_process_persona (u ''Personality: friendly'')) =
          WriteFailed (OSError (u ''No space left on device''))"
    by (simp add: full_disk_world_def)
  have io1: "is_IOError (OSError (u ''Read-only file system''))"
    and io2: "is_IOError (OSError (u ''No space left on device''))"
    by (simp_all add: is_IOError_def)
  have o1: "write_file readonly_world (u ''kojied'' @ u ''_persona.txt'')
        (post_process_persona (u ''Personality: friendly'')) =
          OpenFailed (OSError (u ''Read-only file system''))"
    by (simp add: readonly_world_def)
  have o2: "write_file full_disk_world (u ''kojied'' @ u ''_persona.txt'')
        (post_process_persona (u ''Personality: friendly'')) \<noteq>
          OpenFailed (OSError (u ''No space left on device''))"
    by (simp add: full_disk_world_def)
  note r1 = run_write_failure [OF l1 f ne p g1 w1 io1]
  note r2 = run_write_failure [OF l2 f ne p g2 w2 io2]
  from r1 o1 have a1:
    "save_persona readonly_world (u ''kojied'') (u ''Personality: friendly'') =
       (Ok (), [LogException (u ''Failed to write persona file: '') (OSError (u ''Read-only file system''))])"
    by simp
  from r2 o2 have a2:
    "save_persona full_disk_world (u ''kojied'') (u ''Personality: friendly'') =
       (Ok (), [FileOpen (u ''kojied'' @ u ''_persona.txt''),
                LogException (u ''Failed to write persona file: '') (OSError (u ''No space left on device''))])"
    by simp
  from a2 have a2': "save_persona full_disk_world (u ''kojied'') (u ''Personality: friendly'') =
       (Ok (), [FileOpen (u ''kojied_persona.txt''),
                LogException (u ''Failed to write persona file: '') (OSError (u ''No space left on device''))])"
    by (simp add: u_def)
  from r1 r2 a1 a2' io1 io2 show ?thesis by blast
qed

end
